theory Spec2Isabelle
  imports Complex_Main "HOL-Library.Word"
begin

section \<open>The photo editor's image state: data model\<close>

text \<open>
  The program is the class \<open>PhotoEditor\<close> of \<open>Advanced_AI_Photo_Editor.py\<close>. Its image
  state is four fields: \<open>original_image\<close>, \<open>current_image\<close>, \<open>history\<close> (the undo log,
  oldest entry first) and \<open>redo_stack\<close>, together with \<open>zoom_level\<close>. The widgets (canvas,
  status bar, sliders, dialogs) are not part of the model: \<open>show_image\<close>, \<open>update_status\<close>
  and the \<open>set\<close> calls on the sliders are taken to leave the image fields alone.

  An image is a width, a height and its pixels in row-major order. The two pixel layouts
  the program works with are RGB and RGBA; a sample is an unsigned byte.
\<close>

type_synonym sample = "8 word"

type_synonym rgb = "sample \<times> sample \<times> sample"

datatype mode = RGB | RGBA

datatype pixel_data = RGB_pixels "rgb list" | RGBA_pixels "(rgb \<times> sample) list"

record image =
  width :: nat
  height :: nat
  pixels :: pixel_data

definition mode_of :: "image \<Rightarrow> mode" where
  "mode_of img = (case pixels img of RGB_pixels _ \<Rightarrow> RGB | RGBA_pixels _ \<Rightarrow> RGBA)"

definition rgb_channels :: "image \<Rightarrow> rgb list" where
  "rgb_channels img = (case pixels img of RGB_pixels ps \<Rightarrow> ps | RGBA_pixels ps \<Rightarrow> map fst ps)"

definition alpha_channel :: "image \<Rightarrow> sample list option" where
  "alpha_channel img =
     (case pixels img of RGB_pixels _ \<Rightarrow> None | RGBA_pixels ps \<Rightarrow> Some (map snd ps))"

definition pixel_count :: "image \<Rightarrow> nat" where
  "pixel_count img =
     (case pixels img of RGB_pixels ps \<Rightarrow> length ps | RGBA_pixels ps \<Rightarrow> length ps)"

definition well_formed :: "image \<Rightarrow> bool" where
  "well_formed img \<longleftrightarrow> pixel_count img = width img * height img"

definition convert_RGB :: "image \<Rightarrow> image" where
  \<comment> \<open>Modelled from the spec: \<open>toMode(buffer, RGB)\<close>, which the program calls as Pillow's
      \<open>Image.convert('RGB')\<close> (library code, not in the repository): the identity on an
      RGB buffer, and on an RGBA buffer it drops the alpha channel.\<close>
  "convert_RGB img = img\<lparr>pixels := RGB_pixels (rgb_channels img)\<rparr>"

datatype exn = IndexError | DecodeError | SegmentationError

datatype outcome =
    Done
  | Refused
  | Reported exn
  | Uncaught exn

text \<open>
  \<open>Done\<close>: the method returned. \<open>Refused\<close>: it showed the information dialog and returned
  without acting. \<open>Reported e\<close>: an exception was caught by the method's own handler and
  shown in the error dialog. \<open>Uncaught e\<close>: the exception left the method.
\<close>

record editor =
  original_image :: "image option"
  current_image :: "image option"
  history :: "image list"
  redo_stack :: "image list"
  zoom_level :: rat

definition init_editor :: "image \<Rightarrow> editor" where
  \<comment> \<open>\<open>__init__\<close> followed by \<open>show_welcome_image\<close>; the argument is the welcome picture.\<close>
  "init_editor welcome_img =
     \<lparr>original_image = None, current_image = Some welcome_img,
      history = [], redo_stack = [], zoom_level = 1\<rparr>"

section \<open>History: save, undo, redo, open, reset\<close>

definition save_history :: "editor \<Rightarrow> editor" where
  "save_history s =
     (case current_image s of
        None \<Rightarrow> s
      | Some img \<Rightarrow>
          let img_copy = convert_RGB img;
              h1 = history s @ [img_copy];
              h2 = (if length h1 > 20 then tl h1 else h1)
          in s\<lparr>history := h2, redo_stack := []\<rparr>)"

definition open_image :: "(exn + image) option \<Rightarrow> editor \<Rightarrow> outcome \<times> editor" where
  \<comment> \<open>The argument is what the file dialog and the decoder deliver: \<open>None\<close> when no path
      was chosen, \<open>Some (Inl e)\<close> when \<open>Image.open\<close> raised, \<open>Some (Inr img)\<close> the decoded
      picture.\<close>
  "open_image chosen s =
     (case chosen of
        None \<Rightarrow> (Done, s)
      | Some (Inl e) \<Rightarrow> (Reported e, s)
      | Some (Inr img) \<Rightarrow>
          let s1 = s\<lparr>original_image := Some (convert_RGB img)\<rparr>;
              s2 = s1\<lparr>current_image := original_image s1\<rparr>;
              s3 = s2\<lparr>history := []\<rparr>;
              s4 = s3\<lparr>redo_stack := []\<rparr>;
              s5 = save_history s4
          in (Done, s5\<lparr>zoom_level := 1\<rparr>))"

definition undo :: "editor \<Rightarrow> editor" where
  "undo s =
     (if length (history s) > 1 then
        let s1 = s\<lparr>redo_stack := redo_stack s @ [last (history s)],
                   history := butlast (history s)\<rparr>
        in s1\<lparr>current_image := Some (last (history s1))\<rparr>
      else s)"

definition redo :: "editor \<Rightarrow> outcome \<times> editor" where
  \<comment> \<open>\<open>list.pop()\<close> on an empty list raises \<open>IndexError\<close>; nothing in \<open>redo\<close> catches it.\<close>
  "redo s =
     (if redo_stack s \<noteq> [] then
        let s1 = save_history s
        in (case redo_stack s1 of
              [] \<Rightarrow> (Uncaught IndexError, s1)
            | _ # _ \<Rightarrow>
                (Done, s1\<lparr>redo_stack := butlast (redo_stack s1),
                          current_image := Some (last (redo_stack s1))\<rparr>))
      else (Done, s))"

definition reset_image :: "editor \<Rightarrow> editor" where
  "reset_image s =
     (case original_image s of
        None \<Rightarrow> s
      | Some orig \<Rightarrow>
          let s1 = save_history s
          in s1\<lparr>current_image := Some orig, zoom_level := 1\<rparr>)"


definition last_n :: "nat \<Rightarrow> 'a list \<Rightarrow> 'a list" where
  "last_n n xs = drop (length xs - n) xs"

definition solid :: "nat \<Rightarrow> nat \<Rightarrow> rgb \<Rightarrow> image" where
  "solid w h c = \<lparr>width = w, height = h, pixels = RGB_pixels (replicate (w * h) c)\<rparr>"

definition solid_rgba :: "nat \<Rightarrow> nat \<Rightarrow> rgb \<Rightarrow> sample \<Rightarrow> image" where
  "solid_rgba w h c a = \<lparr>width = w, height = h, pixels = RGBA_pixels (replicate (w * h) (c, a))\<rparr>"

section \<open>Filters\<close>

definition apply_filter :: "(image \<Rightarrow> image) \<Rightarrow> editor \<Rightarrow> editor" where
  \<comment> \<open>\<open>save_history\<close> does not assign \<open>current_image\<close>, so the image the filter reads after
      it is the one bound here.\<close>
  "apply_filter filter_func s =
     (case current_image s of
        None \<Rightarrow> s
      | Some img \<Rightarrow>
          let s1 = save_history s
          in s1\<lparr>current_image := Some (filter_func img)\<rparr>)"

definition invert_rgb :: "rgb \<Rightarrow> rgb" where
  "invert_rgb p = (case p of (r, g, b) \<Rightarrow> (255 - r, 255 - g, 255 - b))"

definition ImageOps_invert :: "image \<Rightarrow> image" where
  \<comment> \<open>Modelled from the spec: \<open>negative(buf)\<close>, which the program calls as Pillow's
      \<open>ImageOps.invert\<close> (library code, not in the repository): every colour sample \<open>x\<close>
      becomes \<open>255 - x\<close>, an alpha channel is left as it is.\<close>
  "ImageOps_invert img =
     (case pixels img of
        RGB_pixels ps \<Rightarrow> img\<lparr>pixels := RGB_pixels (map invert_rgb ps)\<rparr>
      | RGBA_pixels ps \<Rightarrow> img\<lparr>pixels := RGBA_pixels (map (\<lambda>(p, a). (invert_rgb p, a)) ps)\<rparr>)"

definition apply_negative :: "editor \<Rightarrow> editor" where
  "apply_negative s = apply_filter ImageOps_invert s"

definition ImageOps_grayscale_RGB :: "(rgb \<Rightarrow> sample) \<Rightarrow> image \<Rightarrow> image" where
  \<comment> \<open>Modelled from the spec: \<open>grayscale(buf)\<close>, in the program
      \<open>ImageOps.grayscale(img).convert('RGB')\<close> (Pillow, not in the repository): one
      luminance sample for each pixel, repeated in the three channels of an RGB image. The
      luminance weights are the first argument.\<close>
  "ImageOps_grayscale_RGB lum img =
     img\<lparr>pixels := RGB_pixels (map (\<lambda>p. (lum p, lum p, lum p)) (rgb_channels img))\<rparr>"

definition apply_grayscale :: "(rgb \<Rightarrow> sample) \<Rightarrow> editor \<Rightarrow> editor" where
  "apply_grayscale lum s = apply_filter (ImageOps_grayscale_RGB lum) s"

type_synonym matrix3 = "(rat \<times> rat \<times> rat) \<times> (rat \<times> rat \<times> rat) \<times> (rat \<times> rat \<times> rat)"

definition sepia_matrix :: matrix3 where
  "sepia_matrix =
     ((393 / 1000, 769 / 1000, 189 / 1000),
      (349 / 1000, 686 / 1000, 168 / 1000),
      (272 / 1000, 534 / 1000, 131 / 1000))"

definition sample_value :: "sample \<Rightarrow> rat" where
  "sample_value x = of_nat (unat x)"

definition row_times :: "rat \<times> rat \<times> rat \<Rightarrow> rgb \<Rightarrow> rat" where
  "row_times row p =
     (case row of (a, b, c) \<Rightarrow> case p of (r, g, bl) \<Rightarrow>
        a * sample_value r + b * sample_value g + c * sample_value bl)"

definition cv2_transform :: "matrix3 \<Rightarrow> rgb \<Rightarrow> rat \<times> rat \<times> rat" where
  \<comment> \<open>Modelled from the spec: the 3 by 3 linear transform applied to the column
      \<open>[R, G, B]\<close> of one pixel (OpenCV's \<open>cv2.transform\<close>, library code, not in the
      repository), in exact arithmetic.\<close>
  "cv2_transform m p = (case m of (r1, r2, r3) \<Rightarrow> (row_times r1 p, row_times r2 p, row_times r3 p))"

definition np_clip :: "rat \<Rightarrow> rat \<Rightarrow> rat \<Rightarrow> rat" where
  "np_clip x lo hi = min (max x lo) hi"

definition astype_uint8 :: "rat \<Rightarrow> sample" where
  \<comment> \<open>The cast drops the fractional part (towards zero) and keeps the low eight bits.\<close>
  "astype_uint8 x = word_of_int (if 0 \<le> x then \<lfloor>x\<rfloor> else \<lceil>x\<rceil>)"

definition sepia_pixel :: "rgb \<Rightarrow> rgb" where
  "sepia_pixel p =
     (case cv2_transform sepia_matrix p of
        (x, y, z) \<Rightarrow>
          (astype_uint8 (np_clip x 0 255), astype_uint8 (np_clip y 0 255),
           astype_uint8 (np_clip z 0 255)))"

definition sepia_filter :: "image \<Rightarrow> image" where
  \<comment> \<open>The source hands the whole pixel array to \<open>cv2.transform\<close>. On an RGBA image the
      model applies the transform to the RGB channels and keeps the alpha channel, which is
      what the spec asks of every filter.\<close>
  "sepia_filter img =
     (case pixels img of
        RGB_pixels ps \<Rightarrow> img\<lparr>pixels := RGB_pixels (map sepia_pixel ps)\<rparr>
      | RGBA_pixels ps \<Rightarrow> img\<lparr>pixels := RGBA_pixels (map (\<lambda>(p, a). (sepia_pixel p, a)) ps)\<rparr>)"

definition apply_sepia :: "editor \<Rightarrow> editor" where
  "apply_sepia s = apply_filter sepia_filter s"

type_synonym kernel = "nat \<Rightarrow> nat \<Rightarrow> nat \<Rightarrow> sample list \<Rightarrow> sample list"

definition blur_rgb :: "(sample list \<Rightarrow> sample list) \<Rightarrow> rgb list \<Rightarrow> rgb list" where
  "blur_rgb f ps =
     zip (f (map fst ps)) (zip (f (map (fst \<circ> snd) ps)) (f (map (snd \<circ> snd) ps)))"

definition GaussianBlur :: "kernel \<Rightarrow> nat \<Rightarrow> image \<Rightarrow> image" where
  \<comment> \<open>Modelled from the spec: \<open>gaussianBlur(buf, radius)\<close>, Pillow's
      \<open>ImageFilter.GaussianBlur\<close> (not in the repository): a convolution of every channel
      on its own. The convolution of one channel (radius, width, height, samples) is the
      first argument.\<close>
  "GaussianBlur conv radius img =
     (let f = conv radius (width img) (height img)
      in case pixels img of
           RGB_pixels ps \<Rightarrow> img\<lparr>pixels := RGB_pixels (blur_rgb f ps)\<rparr>
         | RGBA_pixels ps \<Rightarrow>
             img\<lparr>pixels := RGBA_pixels (zip (blur_rgb f (map fst ps)) (f (map snd ps)))\<rparr>)"

definition blur_image :: "editor \<Rightarrow> editor" where
  \<comment> \<open>\<open>blur_image\<close> saves the history and opens the dialog; the blur itself is
      \<open>apply_blur\<close>, run when the dialog's button is pressed.\<close>
  "blur_image s = (case current_image s of None \<Rightarrow> s | Some _ \<Rightarrow> save_history s)"

definition apply_blur :: "kernel \<Rightarrow> nat \<Rightarrow> editor \<Rightarrow> editor" where
  "apply_blur conv blur_level s =
     (case current_image s of
        None \<Rightarrow> s
      | Some img \<Rightarrow> s\<lparr>current_image := Some (GaussianBlur conv blur_level img)\<rparr>)"

section \<open>Saturation and brightness sliders\<close>

definition clamp_sample :: "rat \<Rightarrow> sample" where
  "clamp_sample x = astype_uint8 (np_clip x 0 255)"

definition map_rgb :: "(rgb \<Rightarrow> rgb) \<Rightarrow> image \<Rightarrow> image" where
  "map_rgb f img =
     (case pixels img of
        RGB_pixels ps \<Rightarrow> img\<lparr>pixels := RGB_pixels (map f ps)\<rparr>
      | RGBA_pixels ps \<Rightarrow> img\<lparr>pixels := RGBA_pixels (map (\<lambda>(p, a). (f p, a)) ps)\<rparr>)"

definition ImageEnhance_Brightness :: "rat \<Rightarrow> image \<Rightarrow> image" where
  \<comment> \<open>Modelled from the spec: \<open>adjustBrightness(buf, factor)\<close>, Pillow's
      \<open>ImageEnhance.Brightness(img).enhance(factor)\<close> (not in the repository): factor 0
      is black, 1 leaves the image as it is, above 1 is brighter, clamped at 255 in every
      channel.\<close>
  "ImageEnhance_Brightness factor img =
     map_rgb (\<lambda>(r, g, b). (clamp_sample (sample_value r * factor),
                            clamp_sample (sample_value g * factor),
                            clamp_sample (sample_value b * factor))) img"

definition ImageEnhance_Color :: "(rgb \<Rightarrow> sample) \<Rightarrow> rat \<Rightarrow> image \<Rightarrow> image" where
  \<comment> \<open>Modelled from the spec: \<open>adjustSaturation(buf, factor)\<close>, Pillow's
      \<open>ImageEnhance.Color(img).enhance(factor)\<close> (not in the repository): in every channel
      the linear interpolation between the grayscale version and the original. The
      luminance weights are the first argument.\<close>
  "ImageEnhance_Color lum factor img =
     map_rgb (\<lambda>(r, g, b).
        let l = sample_value (lum (r, g, b))
        in (clamp_sample (l + factor * (sample_value r - l)),
            clamp_sample (l + factor * (sample_value g - l)),
            clamp_sample (l + factor * (sample_value b - l)))) img"

definition change_saturation :: "(rgb \<Rightarrow> sample) \<Rightarrow> rat \<Rightarrow> bool \<Rightarrow> editor \<Rightarrow> editor" where
  "change_saturation lum v save s =
     (case current_image s of
        None \<Rightarrow> s
      | Some img \<Rightarrow>
          let s1 = (if save then save_history s else s);
              factor = v / 100
          in s1\<lparr>current_image := Some (ImageEnhance_Color lum factor img)\<rparr>)"

definition change_brightness :: "rat \<Rightarrow> bool \<Rightarrow> editor \<Rightarrow> editor" where
  "change_brightness v save s =
     (case current_image s of
        None \<Rightarrow> s
      | Some img \<Rightarrow>
          let s1 = (if save then save_history s else s);
              factor = v / 100
          in s1\<lparr>current_image := Some (ImageEnhance_Brightness factor img)\<rparr>)"

definition sat_slider_command :: "(rgb \<Rightarrow> sample) \<Rightarrow> rat \<Rightarrow> editor \<Rightarrow> editor" where
  \<comment> \<open>The \<open>command\<close> of the saturation slider in \<open>create_toolbar\<close>; the widget calls it
      with the new value every time the slider moves.\<close>
  "sat_slider_command lum v s = change_saturation lum v True s"

definition bright_slider_command :: "rat \<Rightarrow> editor \<Rightarrow> editor" where
  "bright_slider_command v s = change_brightness v True s"

text \<open>
  A gesture is the list of values the slider passes through while it is dragged, in
  order; the widget runs its command once for each.
\<close>

definition sat_gesture :: "(rgb \<Rightarrow> sample) \<Rightarrow> rat list \<Rightarrow> editor \<Rightarrow> editor" where
  "sat_gesture lum vs s = fold (sat_slider_command lum) vs s"

definition bright_gesture :: "rat list \<Rightarrow> editor \<Rightarrow> editor" where
  "bright_gesture vs s = fold bright_slider_command vs s"

section \<open>Background removal and compositing\<close>

type_synonym rect = "int \<times> int \<times> int \<times> int"

type_synonym solver = "nat \<Rightarrow> nat \<Rightarrow> rgb list \<Rightarrow> rect \<Rightarrow> nat \<Rightarrow> sample list"

definition clamp_rect :: "nat \<Rightarrow> nat \<Rightarrow> rect \<Rightarrow> rect" where
  "clamp_rect w h r =
     (case r of (x, y, rw, rh) \<Rightarrow>
        let x' = max 0 x; y' = max 0 y
        in (x', y', min rw (int w - x'), min rh (int h - y')))"

definition grabCut :: "solver \<Rightarrow> nat \<Rightarrow> nat \<Rightarrow> rgb list \<Rightarrow> rect \<Rightarrow> nat \<Rightarrow> exn + sample list" where
  \<comment> \<open>Modelled from the spec: \<open>segmentForeground(buf, seedRegion)\<close>, in the program
      OpenCV's \<open>cv2.grabCut\<close> (library code, not in the repository). It fails with
      \<open>SegmentationError\<close> if the seed region has non-positive width or height after
      clamping to the image bounds; otherwise it delivers one label for each pixel
      (0 background, 1 foreground, 2 probable background, 3 probable foreground). The
      iterative estimation that computes the labels is the first argument.\<close>
  "grabCut solve w h img_cv r iter_count =
     (case clamp_rect w h r of (x, y, rw, rh) \<Rightarrow>
        if rw \<le> 0 \<or> rh \<le> 0 then Inl SegmentationError
        else Inr (solve w h img_cv (x, y, rw, rh) iter_count))"

definition mask2_of :: "sample list \<Rightarrow> sample list" where
  "mask2_of labels = map (\<lambda>m. if m = 2 \<or> m = 0 then 0 else 1) labels"

definition remove_background :: "solver \<Rightarrow> editor \<Rightarrow> outcome \<times> editor" where
  \<comment> \<open>The source hands the pixels to OpenCV in BGR order and converts the result back;
      the two channel swaps cancel and are not written out. An alpha channel of the
      current image is dropped by the first conversion.\<close>
  "remove_background solve s =
     (case current_image s of
        None \<Rightarrow> (Done, s)
      | Some img \<Rightarrow>
          let s1 = save_history s;
              img_cv = rgb_channels img;
              h = height img; w = width img;
              r = (10, 10, int w - 20, int h - 20)
          in (case grabCut solve w h img_cv r 5 of
                Inl e \<Rightarrow> (Reported e, s1)
              | Inr labels \<Rightarrow>
                  let mask2 = mask2_of labels;
                      result = map2 (\<lambda>(r, g, b) m. (r * m, g * m, b * m)) img_cv mask2;
                      rgba = map2 (\<lambda>p m. (p, m * 255)) result mask2
                  in (Done, s1\<lparr>current_image :=
                         Some \<lparr>width = w, height = h, pixels = RGBA_pixels rgba\<rparr>\<rparr>)))"

definition Image_new_RGBA :: "nat \<Rightarrow> nat \<Rightarrow> rgb \<Rightarrow> (rgb \<times> sample) list" where
  \<comment> \<open>\<open>Image.new('RGBA', size, colour)\<close> with a colour that has no alpha: an opaque image
      of that colour.\<close>
  "Image_new_RGBA w h c = replicate (w * h) (c, 255)"

definition blend :: "sample \<Rightarrow> sample \<Rightarrow> sample \<Rightarrow> sample" where
  "blend fg bg a =
     (let alpha = sample_value a / 255
      in clamp_sample (sample_value fg * alpha + sample_value bg * (1 - alpha)))"

definition alpha_composite :: "(rgb \<times> sample) list \<Rightarrow> (rgb \<times> sample) list \<Rightarrow> (rgb \<times> sample) list" where
  \<comment> \<open>Modelled from the spec: \<open>compositeOverSolid\<close>, in the program Pillow's
      \<open>Image.alpha_composite(bg_img, current_image)\<close> (library code, not in the
      repository): in every channel \<open>out = fg * alpha + bg * (1 - alpha)\<close> with \<open>alpha\<close>
      the foreground's alpha sample over 255, and the result is opaque.\<close>
  "alpha_composite bg fg =
     map2 (\<lambda>((br, bgr, bb), _) ((fr, fgr, fb), a).
             ((blend fr br a, blend fgr bgr a, blend fb bb a), 255)) bg fg"

definition set_custom_background :: "rgb option \<Rightarrow> editor \<Rightarrow> outcome \<times> editor" where
  \<comment> \<open>The argument is what the colour chooser delivers: \<open>None\<close> when it was cancelled.\<close>
  "set_custom_background color s =
     (case current_image s of
        None \<Rightarrow> (Refused, s)
      | Some img \<Rightarrow>
          (case pixels img of
             RGB_pixels _ \<Rightarrow> (Refused, s)
           | RGBA_pixels fg \<Rightarrow>
               (case color of
                  None \<Rightarrow> (Done, s)
                | Some bg_color \<Rightarrow>
                    let bg_img = Image_new_RGBA (width img) (height img) bg_color;
                        s1 = save_history s
                    in (Done, s1\<lparr>current_image :=
                           Some (img\<lparr>pixels := RGBA_pixels (alpha_composite bg_img fg)\<rparr>)\<rparr>))))"

section \<open>The editor as a machine driven by the user's actions\<close>

datatype event =
    Open "(exn + image) option"
  | Undo
  | Redo
  | Reset
  | Blur
  | Apply_blur nat
  | Grayscale
  | Sepia
  | Negative
  | Saturation rat
  | Brightness rat
  | Remove_BG
  | Set_BG "rgb option"

fun step :: "(rgb \<Rightarrow> sample) \<Rightarrow> kernel \<Rightarrow> solver \<Rightarrow> event \<Rightarrow> editor \<Rightarrow> editor" where
  "step lum conv solve (Open chosen) s = snd (open_image chosen s)"
| "step lum conv solve Undo s = undo s"
| "step lum conv solve Redo s = snd (redo s)"
| "step lum conv solve Reset s = reset_image s"
| "step lum conv solve Blur s = blur_image s"
| "step lum conv solve (Apply_blur n) s = apply_blur conv n s"
| "step lum conv solve Grayscale s = apply_grayscale lum s"
| "step lum conv solve Sepia s = apply_sepia s"
| "step lum conv solve Negative s = apply_negative s"
| "step lum conv solve (Saturation v) s = sat_slider_command lum v s"
| "step lum conv solve (Brightness v) s = bright_slider_command v s"
| "step lum conv solve Remove_BG s = snd (remove_background solve s)"
| "step lum conv solve (Set_BG color) s = snd (set_custom_background color s)"

definition run :: "(rgb \<Rightarrow> sample) \<Rightarrow> kernel \<Rightarrow> solver \<Rightarrow> event list \<Rightarrow> editor \<Rightarrow> editor" where
  "run lum conv solve evs s = fold (step lum conv solve) evs s"

definition current_mode :: "editor \<Rightarrow> mode option" where
  "current_mode s = map_option mode_of (current_image s)"

definition snapshots_rgb :: "editor \<Rightarrow> bool" where
  "snapshots_rgb s \<longleftrightarrow>
     list_all (\<lambda>img. mode_of img = RGB) (history s) \<and>
     list_all (\<lambda>img. mode_of img = RGB) (redo_stack s)"

definition session_inv :: "editor \<Rightarrow> bool" where
  "session_inv s \<longleftrightarrow>
     snapshots_rgb s \<and> current_image s \<noteq> None \<and>
     (original_image s \<noteq> None \<longrightarrow>
        history s \<noteq> [] \<and> (current_mode s = Some RGBA \<longrightarrow> 2 \<le> length (history s)))"

section \<open>Concrete inputs\<close>

definition black :: image where
  "black = solid 1 1 (0, 0, 0)"

definition grey200 :: image where
  "grey200 = solid 1 1 (200, 200, 200)"

definition red_opaque :: image where
  "red_opaque = solid_rgba 1 1 (255, 0, 0) 255"

definition green_lum :: "rgb \<Rightarrow> sample" where
  "green_lum p = fst (snd p)"

definition no_blur :: kernel where
  "no_blur radius w h band = band"

definition all_foreground :: solver where
  "all_foreground w h img_cv r iter_count = replicate (w * h) 3"

definition loaded :: editor where
  "loaded = snd (open_image (Some (Inr black)) (init_editor black))"

definition edited :: editor where
  "edited = apply_negative loaded"

definition undone :: editor where
  "undone = undo edited"

definition loaded_grey :: editor where
  "loaded_grey = snd (open_image (Some (Inr grey200)) (init_editor black))"

definition big :: image where
  "big = solid 21 21 (0, 0, 0)"

definition cut_out :: editor where
  "cut_out =
     run green_lum no_blur all_foreground [Open (Some (Inr big)), Remove_BG] (init_editor black)"

definition welcome_cut_out :: editor where
  "welcome_cut_out = run green_lum no_blur all_foreground [Remove_BG] (init_editor big)"

section \<open>Basic facts\<close>

lemma mode_of_convert_RGB: "mode_of (convert_RGB img) = RGB"
  by (simp add: mode_of_def convert_RGB_def)

lemma convert_RGB_idem: "convert_RGB (convert_RGB img) = convert_RGB img"
  by (simp add: convert_RGB_def rgb_channels_def)


lemma save_history_Some:
  "current_image s = Some img \<Longrightarrow>
   save_history s =
     s\<lparr>history := (if length (history s) \<ge> 20 then tl (history s @ [convert_RGB img])
                    else history s @ [convert_RGB img]),
       redo_stack := []\<rparr>"
  by (simp add: save_history_def Let_def)

lemma save_history_None: "current_image s = None \<Longrightarrow> save_history s = s"
  by (simp add: save_history_def)

lemma save_history_current: "current_image (save_history s) = current_image s"
  by (cases "current_image s") (simp_all add: save_history_def Let_def)

lemma save_history_original: "original_image (save_history s) = original_image s"
  by (cases "current_image s") (simp_all add: save_history_def Let_def)

lemma last_n_snoc:
  "length xs \<le> 20 \<Longrightarrow>
   (if length xs \<ge> 20 then tl (xs @ [c]) else xs @ [c]) = last_n 20 (xs @ [c])"
  by (cases xs) (auto simp: last_n_def)

lemma last_n_length: "length (last_n n xs) = min (length xs) n"
  by (simp add: last_n_def)


lemma save_history_last_n:
  assumes "current_image s = Some img" and "length (history s) \<le> 20"
  shows "history (save_history s) = last_n 20 (history s @ [convert_RGB img])"
  using assms last_n_snoc [of "history s" "convert_RGB img"]
  by (simp add: save_history_Some)

lemma save_history_redo: "current_image s = Some img \<Longrightarrow> redo_stack (save_history s) = []"
  by (simp add: save_history_Some)




lemma open_image_loaded:
  "snd (open_image (Some (Inr img)) s) =
     \<lparr>original_image = Some (convert_RGB img), current_image = Some (convert_RGB img),
      history = [convert_RGB img], redo_stack = [], zoom_level = 1\<rparr>"
  by (simp add: open_image_def Let_def save_history_def convert_RGB_idem)

lemma loaded_eq:
  "loaded = \<lparr>original_image = Some black, current_image = Some black,
      history = [black], redo_stack = [], zoom_level = 1\<rparr>"
  by (simp add: loaded_def open_image_loaded convert_RGB_def rgb_channels_def black_def solid_def)

lemma edited_eq:
  "edited = \<lparr>original_image = Some black, current_image = Some (solid 1 1 (255, 255, 255)),
      history = [black, black], redo_stack = [], zoom_level = 1\<rparr>"
  by (simp add: edited_def apply_negative_def apply_filter_def loaded_eq save_history_def Let_def
      convert_RGB_def rgb_channels_def ImageOps_invert_def invert_rgb_def black_def solid_def)

lemma undone_eq:
  "undone = \<lparr>original_image = Some black, current_image = Some black,
      history = [black], redo_stack = [black], zoom_level = 1\<rparr>"
  by (simp add: undone_def undo_def edited_eq Let_def)

section \<open>An invariant of the editor\<close>

lemma snapshots_rgb_save_history: "snapshots_rgb s \<Longrightarrow> snapshots_rgb (save_history s)"
proof (cases "current_image s")
  case None
  assume "snapshots_rgb s"
  with None show ?thesis by (simp add: save_history_None)
next
  case (Some img)
  assume inv: "snapshots_rgb s"
  let ?h = "history s @ [convert_RGB img]"
  from inv have all: "list_all (\<lambda>i. mode_of i = RGB) ?h"
    by (simp add: snapshots_rgb_def mode_of_convert_RGB)
  then have "list_all (\<lambda>i. mode_of i = RGB) (tl ?h)"
    by (cases ?h) simp_all
  with all Some show ?thesis
    by (simp add: save_history_Some snapshots_rgb_def)
qed

lemma save_history_length_if:
  "current_image s = Some img \<Longrightarrow>
   length (history (save_history s)) =
     (if 20 \<le> length (history s) then length (history s) else length (history s) + 1)"
  by (simp add: save_history_Some)

lemma save_history_nonempty:
  "current_image s \<noteq> None \<Longrightarrow> history (save_history s) \<noteq> []"
proof -
  assume "current_image s \<noteq> None"
  then obtain img where "current_image s = Some img" by auto
  then have "length (history (save_history s)) =
     (if 20 \<le> length (history s) then length (history s) else length (history s) + 1)"
    by (rule save_history_length_if)
  then show ?thesis
    by (cases "20 \<le> length (history s)") auto
qed

lemma save_history_two:
  "current_image s \<noteq> None \<Longrightarrow> history s \<noteq> [] \<Longrightarrow> 2 \<le> length (history (save_history s))"
proof -
  assume "current_image s \<noteq> None" and ne: "history s \<noteq> []"
  then obtain img where "current_image s = Some img" by auto
  then have "length (history (save_history s)) =
     (if 20 \<le> length (history s) then length (history s) else length (history s) + 1)"
    by (rule save_history_length_if)
  moreover from ne have "1 \<le> length (history s)"
    by (cases "history s") simp_all
  ultimately show ?thesis by (simp split: if_splits)
qed

lemma session_inv_save_then_set:
  assumes "session_inv s"
  shows "session_inv ((save_history s)\<lparr>current_image := Some x\<rparr>)"
proof -
  from assms have cur: "current_image s \<noteq> None"
    by (simp add: session_inv_def)
  from assms have "snapshots_rgb (save_history s)"
    by (simp add: session_inv_def snapshots_rgb_save_history)
  then have snap: "snapshots_rgb ((save_history s)\<lparr>current_image := Some x\<rparr>)"
    by (simp add: snapshots_rgb_def)
  have "original_image s \<noteq> None \<longrightarrow> 2 \<le> length (history (save_history s))"
    using assms cur save_history_two [of s] by (simp add: session_inv_def)
  with snap show ?thesis
    by (auto simp: session_inv_def save_history_original)
qed

lemma session_inv_save_history:
  assumes "session_inv s"
  shows "session_inv (save_history s)"
proof -
  from assms have "current_image s \<noteq> None"
    by (simp add: session_inv_def)
  then obtain img where img: "current_image s = Some img" by auto
  then have "(save_history s)\<lparr>current_image := Some img\<rparr> = save_history s"
    using save_history_current [of s] by simp
  with session_inv_save_then_set [OF assms, of img] show ?thesis by simp
qed

lemma mode_of_GaussianBlur: "mode_of (GaussianBlur conv n img) = mode_of img"
  by (cases "pixels img") (simp_all add: GaussianBlur_def mode_of_def Let_def)

lemma session_inv_undo: "session_inv s \<Longrightarrow> session_inv (undo s)"
proof -
  assume inv: "session_inv s"
  show ?thesis
  proof (cases "1 < length (history s)")
    case False
    with inv show ?thesis by (simp add: undo_def)
  next
    case True
    then have ne: "history s \<noteq> []" and ne': "butlast (history s) \<noteq> []"
      by (cases "history s"; auto)+
    from inv have all: "list_all (\<lambda>i. mode_of i = RGB) (history s)"
      by (simp add: session_inv_def snapshots_rgb_def)
    with ne have l: "mode_of (last (history s)) = RGB"
      by (simp add: list_all_iff)
    from all have b: "list_all (\<lambda>i. mode_of i = RGB) (butlast (history s))"
      by (auto simp: list_all_iff dest: in_set_butlastD)
    with ne' have "mode_of (last (butlast (history s))) = RGB"
      by (simp add: list_all_iff)
    with inv True l b ne' show ?thesis
      by (simp add: undo_def Let_def session_inv_def snapshots_rgb_def current_mode_def)
  qed
qed

lemma redo_with_image:
  "current_image s \<noteq> None \<Longrightarrow> snd (redo s) = (if redo_stack s \<noteq> [] then save_history s else s)"
  by (auto simp: redo_def Let_def save_history_redo)

lemma session_inv_step: "session_inv s \<Longrightarrow> session_inv (step lum conv solve ev s)"
proof (cases ev)
  case (Open chosen)
  assume inv: "session_inv s"
  show ?thesis
  proof (cases chosen)
    case None
    with inv Open show ?thesis by (simp add: open_image_def)
  next
    case (Some r)
    with inv Open show ?thesis
      by (cases r)
         (simp_all add: open_image_def open_image_loaded [unfolded open_image_def]
            session_inv_def snapshots_rgb_def mode_of_convert_RGB current_mode_def
            save_history_def convert_RGB_idem Let_def)
  qed
next
  case Undo
  assume "session_inv s"
  with Undo show ?thesis by (simp add: session_inv_undo)
next
  case Redo
  assume inv: "session_inv s"
  then have "current_image s \<noteq> None" by (simp add: session_inv_def)
  with inv Redo show ?thesis
    by (simp add: redo_with_image session_inv_save_history)
next
  case Reset
  assume inv: "session_inv s"
  with Reset show ?thesis
    using session_inv_save_then_set [of s]
    by (cases "original_image s")
       (auto simp: reset_image_def Let_def session_inv_def snapshots_rgb_def current_mode_def)
next
  case Blur
  assume inv: "session_inv s"
  with Blur show ?thesis
    by (cases "current_image s") (simp_all add: blur_image_def session_inv_save_history)
next
  case (Apply_blur n)
  assume inv: "session_inv s"
  with Apply_blur show ?thesis
    by (cases "current_image s")
       (auto simp: apply_blur_def session_inv_def snapshots_rgb_def current_mode_def
          mode_of_GaussianBlur)
next
  case Grayscale
  assume inv: "session_inv s"
  with Grayscale show ?thesis
    by (cases "current_image s")
       (simp_all add: apply_grayscale_def apply_filter_def Let_def session_inv_save_then_set)
next
  case Sepia
  assume inv: "session_inv s"
  with Sepia show ?thesis
    by (cases "current_image s")
       (simp_all add: apply_sepia_def apply_filter_def Let_def session_inv_save_then_set)
next
  case Negative
  assume inv: "session_inv s"
  with Negative show ?thesis
    by (cases "current_image s")
       (simp_all add: apply_negative_def apply_filter_def Let_def session_inv_save_then_set)
next
  case (Saturation v)
  assume inv: "session_inv s"
  with Saturation show ?thesis
    by (cases "current_image s")
       (simp_all add: sat_slider_command_def change_saturation_def Let_def
          session_inv_save_then_set)
next
  case (Brightness v)
  assume inv: "session_inv s"
  with Brightness show ?thesis
    by (cases "current_image s")
       (simp_all add: bright_slider_command_def change_brightness_def Let_def
          session_inv_save_then_set)
next
  case Remove_BG
  assume inv: "session_inv s"
  with Remove_BG show ?thesis
    by (cases "current_image s")
       (auto simp: remove_background_def Let_def session_inv_save_then_set
          session_inv_save_history split: sum.splits)
next
  case (Set_BG color)
  assume inv: "session_inv s"
  with Set_BG show ?thesis
    by (cases "current_image s")
       (auto simp: set_custom_background_def Let_def session_inv_save_then_set
          split: pixel_data.splits option.splits)
qed

lemma session_inv_init: "session_inv (init_editor w)"
  by (simp add: session_inv_def snapshots_rgb_def init_editor_def)

lemma session_inv_run: "session_inv s \<Longrightarrow> session_inv (run lum conv solve evs s)"
proof (induction evs arbitrary: s)
  case Nil
  then show ?case by (simp add: run_def)
next
  case (Cons ev evs)
  from Cons.prems have "session_inv (step lum conv solve ev s)"
    by (rule session_inv_step)
  then have "session_inv (run lum conv solve evs (step lum conv solve ev s))"
    by (rule Cons.IH)
  then show ?case by (simp add: run_def)
qed

lemma undo_restores_rgb:
  "session_inv s \<Longrightarrow> 1 < length (history s) \<Longrightarrow> current_mode (undo s) = Some RGB"
proof -
  assume inv: "session_inv s" and len: "1 < length (history s)"
  then have ne': "butlast (history s) \<noteq> []"
    by (cases "history s"; auto)
  from inv have "list_all (\<lambda>i. mode_of i = RGB) (butlast (history s))"
    by (auto simp: session_inv_def snapshots_rgb_def list_all_iff dest: in_set_butlastD)
  with ne' have "mode_of (last (butlast (history s))) = RGB"
    by (simp add: list_all_iff)
  with len show ?thesis
    by (simp add: undo_def Let_def current_mode_def)
qed

lemma redo_keeps_current: "current_image s \<noteq> None \<Longrightarrow> current_mode (snd (redo s)) = current_mode s"
  by (simp add: redo_with_image current_mode_def save_history_current)

section \<open>Undo\<close>



section \<open>Redo\<close>

text \<open>
  Claim C2. With an empty redo log \<open>redo\<close> changes nothing. The claim says that with a
  non-empty redo log \<open>redo\<close> saves the current state, pops the redo target and installs it
  without raising. The code does not: \<open>save_history\<close> empties the redo log before the
  \<open>pop\<close>, so whenever an image is present \<open>redo\<close> leaves with \<open>IndexError\<close>, the redo
  target is lost and the current image stays what it was. An image is present in every
  state the editor can reach, so there \<open>redo\<close> with a non-empty redo log always raises.
\<close>

theorem redo_raises:
  "(redo_stack s = [] \<longrightarrow> redo s = (Done, s)) \<and>
   (redo_stack s \<noteq> [] \<and> current_image s \<noteq> None \<longrightarrow>
      redo s = (Uncaught IndexError, save_history s) \<and>
      redo_stack (snd (redo s)) = [] \<and>
      current_image (snd (redo s)) = current_image s) \<and>
   (redo_stack (run lum conv solve evs (init_editor welcome)) \<noteq> [] \<longrightarrow>
      fst (redo (run lum conv solve evs (init_editor welcome))) = Uncaught IndexError)"
proof -
  have general: "redo t = (Uncaught IndexError, save_history t) \<and>
      redo_stack (snd (redo t)) = [] \<and> current_image (snd (redo t)) = current_image t"
    if "redo_stack t \<noteq> []" and "current_image t \<noteq> None" for t
    using that by (auto simp: redo_def Let_def save_history_redo save_history_current)
  have "session_inv (run lum conv solve evs (init_editor welcome))"
    by (simp add: session_inv_run session_inv_init)
  then have "current_image (run lum conv solve evs (init_editor welcome)) \<noteq> None"
    by (simp add: session_inv_def)
  with general [of "run lum conv solve evs (init_editor welcome)"] general [of s]
  show ?thesis
    by (auto simp: redo_def)
qed

theorem redo_raises_witness:
  "redo_stack undone \<noteq> [] \<and> current_image undone \<noteq> None \<and>
   redo undone =
     (Uncaught IndexError,
      \<lparr>original_image = Some black, current_image = Some black,
       history = [black, black], redo_stack = [], zoom_level = 1\<rparr>) \<and>
   run green_lum no_blur all_foreground [Open (Some (Inr black)), Negative, Undo]
     (init_editor black) = undone"
proof -
  have r: "run green_lum no_blur all_foreground [Open (Some (Inr black)), Negative, Undo]
     (init_editor black) = undone"
    by (simp add: run_def undone_def edited_def loaded_def)
  have sh: "save_history undone =
      \<lparr>original_image = Some black, current_image = Some black,
       history = [black, black], redo_stack = [], zoom_level = 1\<rparr>"
    by (simp add: undone_eq save_history_def Let_def convert_RGB_def rgb_channels_def
        black_def solid_def)
  have ne: "redo_stack undone \<noteq> []" and cur: "current_image undone \<noteq> None"
    by (simp_all add: undone_eq)
  from redo_raises [of undone green_lum no_blur all_foreground
      "[Open (Some (Inr black)), Negative, Undo]" black]
  show ?thesis
    unfolding r sh using ne cur by simp
qed

lemma loaded_grey_eq:
  "loaded_grey = \<lparr>original_image = Some grey200, current_image = Some grey200,
      history = [grey200], redo_stack = [], zoom_level = 1\<rparr>"
  by (simp add: loaded_grey_def open_image_loaded convert_RGB_def rgb_channels_def
      grey200_def solid_def)

section \<open>The bounded undo log\<close>




section \<open>Slider gestures\<close>

lemma save_history_length:
  "current_image s = Some img \<Longrightarrow> length (history s) \<le> 20 \<Longrightarrow>
   length (history (save_history s)) = min 20 (length (history s) + 1)"
  by (simp add: save_history_last_n last_n_length)

lemma bright_slider_command_Some:
  "current_image s = Some img \<Longrightarrow>
   bright_slider_command v s =
     (save_history s)\<lparr>current_image := Some (ImageEnhance_Brightness (v / 100) img)\<rparr>"
  by (simp add: bright_slider_command_def change_brightness_def Let_def)

lemma sat_slider_command_Some:
  "current_image s = Some img \<Longrightarrow>
   sat_slider_command lum v s =
     (save_history s)\<lparr>current_image := Some (ImageEnhance_Color lum (v / 100) img)\<rparr>"
  by (simp add: sat_slider_command_def change_saturation_def Let_def)

lemma bright_gesture_compounds:
  "current_image s = Some base \<Longrightarrow> length (history s) \<le> 20 \<Longrightarrow>
   current_image (bright_gesture vs s) =
     Some (fold (\<lambda>v. ImageEnhance_Brightness (v / 100)) vs base) \<and>
   length (history (bright_gesture vs s)) = min 20 (length (history s) + length vs)"
proof (induction vs arbitrary: s base)
  case Nil
  then show ?case by (simp add: bright_gesture_def)
next
  case (Cons v vs)
  let ?t = "bright_slider_command v s"
  from Cons.prems have cur: "current_image ?t = Some (ImageEnhance_Brightness (v / 100) base)"
    by (simp add: bright_slider_command_Some)
  from Cons.prems have len: "length (history ?t) = min 20 (length (history s) + 1)"
    by (simp add: bright_slider_command_Some save_history_length)
  then have "length (history ?t) \<le> 20" by simp
  with cur have "current_image (bright_gesture vs ?t) =
       Some (fold (\<lambda>v. ImageEnhance_Brightness (v / 100)) vs
               (ImageEnhance_Brightness (v / 100) base)) \<and>
     length (history (bright_gesture vs ?t)) = min 20 (length (history ?t) + length vs)"
    by (rule Cons.IH)
  with len show ?case
    by (simp add: bright_gesture_def)
qed

lemma sat_gesture_compounds:
  "current_image s = Some base \<Longrightarrow> length (history s) \<le> 20 \<Longrightarrow>
   current_image (sat_gesture lum vs s) =
     Some (fold (\<lambda>v. ImageEnhance_Color lum (v / 100)) vs base) \<and>
   length (history (sat_gesture lum vs s)) = min 20 (length (history s) + length vs)"
proof (induction vs arbitrary: s base)
  case Nil
  then show ?case by (simp add: sat_gesture_def)
next
  case (Cons v vs)
  let ?t = "sat_slider_command lum v s"
  from Cons.prems have cur: "current_image ?t = Some (ImageEnhance_Color lum (v / 100) base)"
    by (simp add: sat_slider_command_Some)
  from Cons.prems have len: "length (history ?t) = min 20 (length (history s) + 1)"
    by (simp add: sat_slider_command_Some save_history_length)
  then have "length (history ?t) \<le> 20" by simp
  with cur have "current_image (sat_gesture lum vs ?t) =
       Some (fold (\<lambda>v. ImageEnhance_Color lum (v / 100)) vs
               (ImageEnhance_Color lum (v / 100) base)) \<and>
     length (history (sat_gesture lum vs ?t)) = min 20 (length (history ?t) + length vs)"
    by (rule Cons.IH)
  with len show ?case
    by (simp add: sat_gesture_def)
qed

lemma clamp_sample_of_nat: "n \<le> 255 \<Longrightarrow> clamp_sample (of_nat n) = word_of_nat n"
proof -
  assume "n \<le> 255"
  then have "(of_nat n :: rat) \<le> of_nat 255"
    by (simp only: of_nat_le_iff)
  then have "np_clip (of_nat n) 0 255 = (of_nat n :: rat)"
    by (simp add: np_clip_def min_def max_def)
  then show ?thesis
    by (simp add: clamp_sample_def astype_uint8_def)
qed

lemma clamp_sample_value: "clamp_sample (sample_value c) = c"
proof -
  have "unat c < 2 ^ 8"
    using unsigned_less [of c] by simp
  then have "unat c \<le> 255" by simp
  then have "clamp_sample (of_nat (unat c)) = word_of_nat (unat c)"
    by (rule clamp_sample_of_nat)
  then show ?thesis
    unfolding sample_value_def by simp
qed

lemma brightness_half: "ImageEnhance_Brightness (1 / 2) grey200 = solid 1 1 (100, 100, 100)"
  using clamp_sample_of_nat [of 100]
  by (simp add: ImageEnhance_Brightness_def map_rgb_def grey200_def solid_def sample_value_def)

lemma brightness_one: "ImageEnhance_Brightness 1 img = img"
  by (cases "pixels img")
     (simp_all add: ImageEnhance_Brightness_def map_rgb_def clamp_sample_value
        case_prod_unfold map_idI)

text \<open>
  Claim C1 (as amended). Every call of a slider's command, that is every position the
  slider passes through, first appends a snapshot of the current image to the undo log
  and then replaces the current image by the adjustment of that same current image. So a
  gesture of \<open>n\<close> positions leaves the adjustments applied one after the other, each to
  the result of the one before, and adds \<open>n\<close> entries to the undo log (up to its bound
  of 20).
\<close>

theorem slider_gesture_compounds:
  "current_image s = Some base \<Longrightarrow> length (history s) \<le> 20 \<Longrightarrow>
   bright_slider_command v s =
     (save_history s)\<lparr>current_image := Some (ImageEnhance_Brightness (v / 100) base)\<rparr> \<and>
   sat_slider_command lum v s =
     (save_history s)\<lparr>current_image := Some (ImageEnhance_Color lum (v / 100) base)\<rparr> \<and>
   current_image (bright_gesture vs s) =
     Some (fold (\<lambda>v. ImageEnhance_Brightness (v / 100)) vs base) \<and>
   current_image (sat_gesture lum vs s) =
     Some (fold (\<lambda>v. ImageEnhance_Color lum (v / 100)) vs base) \<and>
   length (history (bright_gesture vs s)) = min 20 (length (history s) + length vs) \<and>
   length (history (sat_gesture lum vs s)) = min 20 (length (history s) + length vs)"
  using bright_gesture_compounds [of s base vs] sat_gesture_compounds [of s base lum vs]
  by (simp add: bright_slider_command_Some sat_slider_command_Some)

theorem slider_gesture_compounds_witness:
  "current_image loaded_grey = Some grey200 \<and> length (history loaded_grey) \<le> 20 \<and>
   current_image (bright_gesture [50, 100] loaded_grey) = Some (solid 1 1 (100, 100, 100)) \<and>
   length (history (bright_gesture [50, 100] loaded_grey)) = 3 \<and>
   length (history (sat_gesture green_lum [50, 100] loaded_grey)) = 3"
  using slider_gesture_compounds [of loaded_grey grey200 50 green_lum "[50, 100]"]
  by (simp add: loaded_grey_eq brightness_half brightness_one)

text \<open>
  The claim as it is written: the adjusted image is computed from the image at the start
  of the gesture, and the gesture adds one entry to the undo log. A brightness gesture
  through the positions 50 and 100 on a grey image of value 200 ends at value 100, not at
  the 200 that position 100 gives from the starting image, and adds two entries.
\<close>

theorem slider_gesture_counterexample:
  "current_image (bright_gesture [50, 100] loaded_grey) \<noteq>
     Some (ImageEnhance_Brightness (100 / 100) grey200) \<and>
   length (history (bright_gesture [50, 100] loaded_grey)) \<noteq> length (history loaded_grey) + 1"
proof -
  have "current_image (bright_gesture [50, 100] loaded_grey) = Some (solid 1 1 (100, 100, 100))"
    and "length (history (bright_gesture [50, 100] loaded_grey)) = 3"
    using bright_gesture_compounds [of loaded_grey grey200 "[50, 100]"]
    by (simp_all add: loaded_grey_eq brightness_half brightness_one)
  moreover have "ImageEnhance_Brightness (100 / 100) grey200 = grey200"
    by (simp add: brightness_one)
  moreover have "solid 1 1 (100, 100, 100) \<noteq> grey200"
    by (simp add: grey200_def solid_def)
  ultimately show ?thesis
    by (simp add: loaded_grey_eq)
qed

section \<open>Negative\<close>

lemma invert_rgb_invert_rgb: "invert_rgb (invert_rgb p) = p"
  by (cases p) (simp add: invert_rgb_def)

text \<open>
  Claim C6. The negative replaces every colour sample \<open>x\<close> by \<open>255 - x\<close> and leaves an
  alpha channel as it is; applying it twice gives back the image it started from, sample
  for sample. The same holds for the editor's \<open>apply_negative\<close> and its current image.
\<close>

theorem negative_involution:
  "ImageOps_invert (ImageOps_invert img) = img \<and>
   rgb_channels (ImageOps_invert img) =
     map (\<lambda>(r, g, b). (255 - r, 255 - g, 255 - b)) (rgb_channels img) \<and>
   alpha_channel (ImageOps_invert img) = alpha_channel img \<and>
   current_image (apply_negative (apply_negative s)) = current_image s"
proof -
  have inv: "ImageOps_invert (ImageOps_invert img) = img" for img
    by (cases "pixels img")
       (simp_all add: ImageOps_invert_def invert_rgb_invert_rgb case_prod_unfold comp_def)
  have ch: "rgb_channels (ImageOps_invert img) =
     map (\<lambda>(r, g, b). (255 - r, 255 - g, 255 - b)) (rgb_channels img) \<and>
   alpha_channel (ImageOps_invert img) = alpha_channel img"
    by (cases "pixels img")
       (simp_all add: ImageOps_invert_def rgb_channels_def alpha_channel_def
          case_prod_unfold comp_def invert_rgb_def)
  have "current_image (apply_negative (apply_negative s)) = current_image s"
    by (cases "current_image s")
       (simp_all add: apply_negative_def apply_filter_def Let_def save_history_current inv)
  with inv ch show ?thesis by simp
qed

section \<open>Sepia\<close>






section \<open>Compositing over a solid background\<close>

lemma blend_opaque: "blend fg bg 255 = fg"
proof -
  have "sample_value (255 :: sample) = 255"
    by (simp add: sample_value_def)
  then show ?thesis
    by (simp add: blend_def clamp_sample_value)
qed

lemma alpha_composite_opaque:
  "list_all (\<lambda>(p, a). a = 255) fg \<Longrightarrow> n = length fg \<Longrightarrow>
   alpha_composite (replicate n (c, 255)) fg = fg"
proof (induction fg arbitrary: n)
  case Nil
  then show ?case by (simp add: alpha_composite_def)
next
  case (Cons x fg)
  then obtain m where n: "n = Suc m" and m: "m = length fg"
    by (cases n) auto
  from Cons.prems(1) have "list_all (\<lambda>(p, a). a = 255) fg" by simp
  then have "alpha_composite (replicate m (c, 255)) fg = fg"
    using m by (rule Cons.IH)
  moreover from Cons.prems(1) have "snd x = 255"
    by (simp add: case_prod_unfold)
  ultimately show ?case
    unfolding n by (cases x; cases c) (simp add: alpha_composite_def blend_opaque case_prod_unfold)
qed

text \<open>
  Claim C8. When the current image is RGBA with alpha 255 at every pixel, setting a
  background of any colour gives an image with the same RGB samples and alpha 255
  everywhere: the composite is the image itself.
\<close>

theorem opaque_foreground_hides_background:
  "current_image s = Some img \<Longrightarrow> pixels img = RGBA_pixels fg \<Longrightarrow> well_formed img \<Longrightarrow>
   list_all (\<lambda>(p, a). a = 255) fg \<Longrightarrow>
   alpha_composite (Image_new_RGBA (width img) (height img) color) fg = fg \<and>
   fst (set_custom_background (Some color) s) = Done \<and>
   current_image (snd (set_custom_background (Some color) s)) = Some img \<and>
   alpha_channel img = Some (replicate (pixel_count img) 255)"
proof -
  assume cur: "current_image s = Some img" and px: "pixels img = RGBA_pixels fg"
    and wf: "well_formed img" and op: "list_all (\<lambda>(p, a). a = 255) fg"
  from wf px have len: "width img * height img = length fg"
    by (simp add: well_formed_def pixel_count_def)
  with op have comp: "alpha_composite (Image_new_RGBA (width img) (height img) color) fg = fg"
    by (simp add: Image_new_RGBA_def alpha_composite_opaque)
  from op have "map snd fg = replicate (length fg) 255"
    by (induction fg) (auto simp: case_prod_unfold)
  moreover from px have "img\<lparr>pixels := RGBA_pixels fg\<rparr> = img"
    by simp
  ultimately show ?thesis
    using cur px comp
    by (simp add: set_custom_background_def Let_def alpha_channel_def pixel_count_def)
qed

theorem opaque_foreground_hides_background_witness:
  "current_image (init_editor red_opaque) = Some red_opaque \<and>
   pixels red_opaque = RGBA_pixels [((255, 0, 0), 255)] \<and> well_formed red_opaque \<and>
   list_all (\<lambda>(p, a). a = 255) [((255, 0, 0), 255 :: sample)] \<and>
   fst (set_custom_background (Some (0, 0, 255)) (init_editor red_opaque)) = Done \<and>
   current_image (snd (set_custom_background (Some (0, 0, 255)) (init_editor red_opaque))) =
     Some red_opaque"
proof -
  have a: "current_image (init_editor red_opaque) = Some red_opaque"
    by (simp add: init_editor_def)
  have b: "pixels red_opaque = RGBA_pixels [((255, 0, 0), 255)]"
    by (simp add: red_opaque_def solid_rgba_def)
  have c: "well_formed red_opaque"
    by (simp add: red_opaque_def solid_rgba_def well_formed_def pixel_count_def)
  have d: "list_all (\<lambda>(p, a). a = 255) [((255, 0, 0), 255 :: sample)]"
    by simp
  from opaque_foreground_hides_background [OF a b c d, of "(0, 0, 255)"] a b c d
  show ?thesis by simp
qed

text \<open>
  Claim C9. When the current image is not in RGBA mode (or there is none), setting a
  background is refused, and the editor's state, current image and history included, is
  exactly what it was.
\<close>

theorem set_background_needs_rgba:
  "current_mode s \<noteq> Some RGBA \<Longrightarrow> set_custom_background color s = (Refused, s)"
  by (cases "current_image s")
     (auto simp: set_custom_background_def current_mode_def mode_of_def split: pixel_data.splits)

theorem set_background_needs_rgba_witness:
  "current_mode loaded \<noteq> Some RGBA \<and> set_custom_background (Some (0, 0, 255)) loaded = (Refused, loaded)"
  using set_background_needs_rgba [of loaded "Some (0, 0, 255)"]
  by (simp add: loaded_eq current_mode_def mode_of_def black_def solid_def)

section \<open>Background removal on small images\<close>

lemma default_rect_degenerate:
  "w \<le> 20 \<or> h \<le> 20 \<Longrightarrow>
   grabCut solve w h img_cv (10, 10, int w - 20, int h - 20) n = Inl SegmentationError"
  by (auto simp: grabCut_def clamp_rect_def Let_def)

text \<open>
  Claim C5. For an image whose width or height is at most 20, so that the default seed
  region \<open>(10, 10, w - 20, h - 20)\<close> has non-positive width or height, background removal
  ends with a reported \<open>SegmentationError\<close> and the current image is the one it was. (The
  snapshot taken before the attempt stays in the undo log.)
\<close>

theorem small_image_segmentation_error:
  "current_image s = Some img \<Longrightarrow> width img \<le> 20 \<or> height img \<le> 20 \<Longrightarrow>
   remove_background solve s = (Reported SegmentationError, save_history s) \<and>
   current_image (snd (remove_background solve s)) = current_image s"
  by (simp add: remove_background_def Let_def default_rect_degenerate save_history_current)

theorem small_image_segmentation_error_witness:
  "current_image loaded = Some black \<and> (width black \<le> 20 \<or> height black \<le> 20) \<and>
   fst (remove_background all_foreground loaded) = Reported SegmentationError \<and>
   current_image (snd (remove_background all_foreground loaded)) = Some black"
proof -
  have a: "current_image loaded = Some black"
    by (simp add: loaded_eq)
  have b: "width black \<le> 20 \<or> height black \<le> 20"
    by (simp add: black_def solid_def)
  from small_image_segmentation_error [OF a b, of all_foreground] a b
  show ?thesis by (simp add: save_history_current)
qed

section \<open>Snapshots are stored as RGB\<close>

lemma last_save_history:
  "current_image t = Some img \<Longrightarrow> last (history (save_history t)) = convert_RGB img"
  by (cases "history t") (auto simp: save_history_Some last_tl)

lemma remove_background_rgba:
  "current_image s = Some img \<Longrightarrow> 20 < width img \<Longrightarrow> 20 < height img \<Longrightarrow>
   fst (remove_background solve s) = Done \<and>
   current_mode (snd (remove_background solve s)) = Some RGBA \<and>
   history (snd (remove_background solve s)) = history (save_history s) \<and>
   original_image (snd (remove_background solve s)) = original_image s"
  by (simp add: remove_background_def grabCut_def clamp_rect_def Let_def current_mode_def
      mode_of_def save_history_original)

text \<open>
  Claim C10. \<open>save_history\<close> stores the RGB conversion of the current image, so in every
  state the editor can reach, all entries of the undo log and of the redo log are RGB.
  Hence an undo that restores an entry yields an RGB image (no alpha channel), and so
  does an undo followed by a redo. In a session, that is once an image has been opened,
  an RGBA current image always has at least two entries below it in the undo log, so
  there the undo does restore one.
\<close>

theorem snapshots_converted_to_rgb:
  "s = run lum conv solve evs (init_editor welcome) \<Longrightarrow>
   list_all (\<lambda>img. mode_of img = RGB) (history s) \<and>
   list_all (\<lambda>img. mode_of img = RGB) (redo_stack s) \<and>
   (current_image t = Some img \<longrightarrow>
      last (history (save_history t)) = convert_RGB img \<and> mode_of (convert_RGB img) = RGB) \<and>
   (1 < length (history s) \<longrightarrow>
      current_mode (undo s) = Some RGB \<and> current_mode (snd (redo (undo s))) = Some RGB) \<and>
   (original_image s \<noteq> None \<and> current_mode s = Some RGBA \<longrightarrow>
      current_mode (undo s) = Some RGB \<and> current_mode (snd (redo (undo s))) = Some RGB)"
proof -
  assume "s = run lum conv solve evs (init_editor welcome)"
  then have inv: "session_inv s"
    by (simp add: session_inv_run session_inv_init)
  then have snaps: "list_all (\<lambda>img. mode_of img = RGB) (history s) \<and>
      list_all (\<lambda>img. mode_of img = RGB) (redo_stack s)"
    by (simp add: session_inv_def snapshots_rgb_def)
  have stored: "current_image t = Some img \<longrightarrow>
      last (history (save_history t)) = convert_RGB img \<and> mode_of (convert_RGB img) = RGB"
    by (simp add: last_save_history mode_of_convert_RGB)
  have restore: "current_mode (undo s) = Some RGB \<and> current_mode (snd (redo (undo s))) = Some RGB"
    if len: "1 < length (history s)"
  proof -
    from inv len have u: "current_mode (undo s) = Some RGB"
      by (rule undo_restores_rgb)
    then have "current_image (undo s) \<noteq> None"
      by (auto simp: current_mode_def)
    then have "current_mode (snd (redo (undo s))) = current_mode (undo s)"
      by (rule redo_keeps_current)
    with u show ?thesis by simp
  qed
  have "1 < length (history s)" if "original_image s \<noteq> None \<and> current_mode s = Some RGBA"
    using inv that by (auto simp: session_inv_def)
  with snaps stored restore show ?thesis by blast
qed

lemma cut_out_facts:
  "original_image cut_out \<noteq> None \<and> current_mode cut_out = Some RGBA \<and>
   length (history cut_out) = 2"
proof -
  let ?l = "snd (open_image (Some (Inr big)) (init_editor black))"
  have cur: "current_image ?l = Some (convert_RGB big)"
    by (simp add: open_image_loaded)
  have w: "20 < width (convert_RGB big)" and h: "20 < height (convert_RGB big)"
    by (simp_all add: convert_RGB_def big_def solid_def)
  have eq: "cut_out = snd (remove_background all_foreground ?l)"
    by (simp add: cut_out_def run_def)
  from remove_background_rgba [OF cur w h, of all_foreground] show ?thesis
    unfolding eq by (simp add: open_image_loaded save_history_Some)
qed

theorem snapshots_converted_to_rgb_witness:
  "original_image cut_out \<noteq> None \<and> current_mode cut_out = Some RGBA \<and>
   1 < length (history cut_out) \<and>
   current_mode (undo cut_out) = Some RGB \<and>
   current_mode (snd (redo (undo cut_out))) = Some RGB \<and>
   current_image loaded = Some black \<and>
   last (history (save_history loaded)) = convert_RGB black"
  using snapshots_converted_to_rgb [of cut_out green_lum no_blur all_foreground
      "[Open (Some (Inr big)), Remove_BG]" black loaded black] cut_out_facts
  by (simp add: cut_out_def [symmetric] loaded_eq)

text \<open>
  Before any image is opened the editor holds the welcome picture and an empty undo log.
  Removing the background there leaves one entry in the log, so \<open>undo\<close> does nothing and
  the current image stays RGBA. The hypothesis that an image has been opened is needed
  for the last part of the theorem above.
\<close>

lemma undo_before_any_load:
  "original_image welcome_cut_out = None \<and> current_mode welcome_cut_out = Some RGBA \<and>
   undo welcome_cut_out = welcome_cut_out"
proof -
  have cur: "current_image (init_editor big) = Some big"
    by (simp add: init_editor_def)
  have w: "20 < width big" and h: "20 < height big"
    by (simp_all add: big_def solid_def)
  have eq: "welcome_cut_out = snd (remove_background all_foreground (init_editor big))"
    by (simp add: welcome_cut_out_def run_def)
  from remove_background_rgba [OF cur w h, of all_foreground]
  have "original_image welcome_cut_out = None" and "current_mode welcome_cut_out = Some RGBA"
    and "length (history welcome_cut_out) = 1"
    unfolding eq by (simp_all add: save_history_Some init_editor_def)
  then show ?thesis
    by (simp add: undo_def)
qed

end
